theory Spec2Isabelle
  imports Main "HOL-Library.Sublist" "HOL-Library.AList" "HOL-Library.List_Lexorder"
begin

section \<open>JavaScript strings\<close>

text \<open>
  A JavaScript string is a sequence of UTF-16 code units. The Thai literals of the
  sources are written out as the code units of their characters (all in the Basic
  Multilingual Plane, one unit each); ASCII literals go through \<open>ascii\<close>.
\<close>

type_synonym jsstring = "nat list"

definition ascii :: "string \<Rightarrow> jsstring" where
  "ascii s = map of_char s"

text \<open>
  \<^verbatim>\<open>String.prototype.startsWith\<close>, \<^verbatim>\<open>endsWith\<close> and \<^verbatim>\<open>includes\<close>: the first argument
  is the receiver, the second the search string. All three compare code units, so they
  are case-sensitive (\<open>includes\<close> is a keyword of Isabelle, hence \<open>includes_str\<close>).
\<close>

fun startsWith :: "jsstring \<Rightarrow> jsstring \<Rightarrow> bool" where
  "startsWith s [] = True"
| "startsWith [] (c # cs) = False"
| "startsWith (x # xs) (c # cs) = (x = c \<and> startsWith xs cs)"

definition endsWith :: "jsstring \<Rightarrow> jsstring \<Rightarrow> bool" where
  "endsWith s t = startsWith (rev s) (rev t)"

fun includes_str :: "jsstring \<Rightarrow> jsstring \<Rightarrow> bool" where
  "includes_str [] t = (t = [])"
| "includes_str (x # xs) t = (startsWith (x # xs) t \<or> includes_str xs t)"

text \<open>
  The code units that \<^verbatim>\<open>String.prototype.trim\<close> strips and that the regular
  expression class \<^verbatim>\<open>\s\<close> matches: ECMAScript's WhiteSpace and LineTerminator.
\<close>

definition is_js_space :: "nat \<Rightarrow> bool" where
  "is_js_space c =
     (c = 0x09 \<or> c = 0x0A \<or> c = 0x0B \<or> c = 0x0C \<or> c = 0x0D \<or> c = 0x20 \<or> c = 0xA0 \<or>
      c = 0x1680 \<or> (0x2000 \<le> c \<and> c \<le> 0x200A) \<or> c = 0x2028 \<or> c = 0x2029 \<or>
      c = 0x202F \<or> c = 0x205F \<or> c = 0x3000 \<or> c = 0xFEFF)"

definition trim :: "jsstring \<Rightarrow> jsstring" where
  "trim s = rev (dropWhile is_js_space (rev (dropWhile is_js_space s)))"


section \<open>File Ingestor: classification (components/FileUpload.tsx, handleFileChange)\<close>

text \<open>The two attributes of the browser's File object that the classification reads.\<close>

record File =
  name :: jsstring
  type :: jsstring

text \<open>
  \<^verbatim>\<open>
  const isSpreadsheet = file.name.endsWith('.xlsx') ||
                        file.name.endsWith('.xls') ||
                        file.name.endsWith('.csv') ||
                        file.type.includes('spreadsheet') ||
                        file.type.includes('excel') ||
                        file.type === 'text/csv';
  \<close>
  True is the tabular path, False the opaque one.
\<close>

definition isSpreadsheet :: "File \<Rightarrow> bool" where
  "isSpreadsheet file =
     (endsWith (name file) (ascii ''.xlsx'') \<or>
      endsWith (name file) (ascii ''.xls'') \<or>
      endsWith (name file) (ascii ''.csv'') \<or>
      includes_str (type file) (ascii ''spreadsheet'') \<or>
      includes_str (type file) (ascii ''excel'') \<or>
      type file = ascii ''text/csv'')"

text \<open>
  The MIME type each path hands to the Analysis Client: fixed for the tabular path,
  \<^verbatim>\<open>file.type || 'text/plain'\<close> for the opaque one.
\<close>

definition upload_mimeType :: "File \<Rightarrow> jsstring" where
  "upload_mimeType file =
     (if isSpreadsheet file then ascii ''text/csv''
      else if type file = [] then ascii ''text/plain'' else type file)"


section \<open>Analysis Client: cleaning the response text (services/geminiService.ts)\<close>

text \<open>
  \<^verbatim>\<open>
  let cleanText = response.text.trim();
  cleanText = cleanText.replace(/^```json\s*/, '').replace(/^```\s*/, '').replace(/\s*```$/, '');
  \<close>
  None of the three expressions has a flag, so each replaces the first match only, \<open>^\<close>
  is the start of the text and \<open>$\<close> its end. An anchored prefix followed by a greedy
  \<^verbatim>\<open>\s*\<close> removes the prefix and the whole run of white space after it.
\<close>

definition FENCE :: jsstring where
  "FENCE = ascii ''```''"

definition strip_prefix_ws :: "jsstring \<Rightarrow> jsstring \<Rightarrow> jsstring" where
  "strip_prefix_ws p s =
     (if startsWith s p then dropWhile is_js_space (drop (length p) s) else s)"

text \<open>
  \<^verbatim>\<open>/\s*```$/\<close>: a match exists iff the text ends with the fence; the leftmost match
  starts at the beginning of the white space run in front of that final fence.
\<close>

definition strip_suffix_fence :: "jsstring \<Rightarrow> jsstring" where
  "strip_suffix_fence s =
     (if endsWith s FENCE
      then rev (dropWhile is_js_space (drop (length FENCE) (rev s)))
      else s)"

definition cleanText :: "jsstring \<Rightarrow> jsstring" where
  "cleanText text =
     strip_suffix_fence
       (strip_prefix_ws FENCE
         (strip_prefix_ws (FENCE @ ascii ''json'') (trim text)))"


section \<open>JSON.parse\<close>

text \<open>
  \<^verbatim>\<open>JSON.parse(cleanText)\<close> is the ECMAScript built-in, called without a reviver. It is
  modelled as a recogniser of the JSON grammar (ECMA-404) that reads the text one code
  unit at a time and keeps a stack of the arrays and objects still open; it throws a
  SyntaxError (here: returns None) on any text that is not exactly one JSON value with
  optional JSON white space around it.

  A number is kept as its literal: the conversion to an IEEE double is not modelled, and
  nothing below computes with numbers. An object is the list of its properties in
  creation order; a repeated key overwrites the earlier value in place, as
  CreateDataProperty does.
\<close>

datatype json =
    JNull
  | JBool bool
  | JNum jsstring
  | JStr jsstring
  | JArr "json list"
  | JObj "(jsstring \<times> json) list"

text \<open>JSON white space is tab, line feed, carriage return and space only.\<close>

definition is_json_ws :: "nat \<Rightarrow> bool" where
  "is_json_ws c = (c = 0x09 \<or> c = 0x0A \<or> c = 0x0D \<or> c = 0x20)"

definition is_digit :: "nat \<Rightarrow> bool" where
  "is_digit c = (0x30 \<le> c \<and> c \<le> 0x39)"

definition is_hex :: "nat \<Rightarrow> bool" where
  "is_hex c = (is_digit c \<or> (0x41 \<le> c \<and> c \<le> 0x46) \<or> (0x61 \<le> c \<and> c \<le> 0x66))"

definition hex_val :: "nat \<Rightarrow> nat" where
  "hex_val c = (if is_digit c then c - 0x30 else if c \<le> 0x46 then c - 0x37 else c - 0x57)"

text \<open>An open container: an array with its elements so far, an object with its
  properties so far, or the key of the property whose value is being read.\<close>

datatype frame =
    FArr "json list"
  | FObj "(jsstring \<times> json) list"
  | FKey jsstring

datatype strst = SNormal | SEscape | SHex "nat list"

datatype numst = NMinus | NZero | NInt | NDot | NFrac | NExp | NExpSign | NExpDigits

datatype mode =
    MValue
  | MArrStart
  | MObjStart
  | MObjKey
  | MColon
  | MAfter
  | MDone json
  | MStr bool jsstring strst
  | MNum numst jsstring
  | MLit jsstring json

type_synonym pstate = "mode \<times> frame list"

text \<open>A value is complete: it is the whole text, or it joins the innermost container.\<close>

fun complete :: "json \<Rightarrow> frame list \<Rightarrow> pstate option" where
  "complete v [] = Some (MDone v, [])"
| "complete v (FArr xs # st) = Some (MAfter, FArr (xs @ [v]) # st)"
| "complete v (FKey k # FObj ps # st) = Some (MAfter, FObj (AList.update k v ps) # st)"
| "complete v st = None"

definition begin_value :: "nat \<Rightarrow> frame list \<Rightarrow> pstate option" where
  "begin_value c st =
     (if c = 0x7B then Some (MObjStart, FObj [] # st)
      else if c = 0x5B then Some (MArrStart, FArr [] # st)
      else if c = 0x22 then Some (MStr False [] SNormal, st)
      else if c = 0x2D then Some (MNum NMinus [c], st)
      else if c = 0x30 then Some (MNum NZero [c], st)
      else if is_digit c then Some (MNum NInt [c], st)
      else if c = 0x74 then Some (MLit (ascii ''rue'') (JBool True), st)
      else if c = 0x66 then Some (MLit (ascii ''alse'') (JBool False), st)
      else if c = 0x6E then Some (MLit (ascii ''ull'') JNull, st)
      else None)"

definition close_array :: "frame list \<Rightarrow> pstate option" where
  "close_array st = (case st of FArr xs # st' \<Rightarrow> complete (JArr xs) st' | _ \<Rightarrow> None)"

definition close_object :: "frame list \<Rightarrow> pstate option" where
  "close_object st = (case st of FObj ps # st' \<Rightarrow> complete (JObj ps) st' | _ \<Rightarrow> None)"

text \<open>The code unit after a complete value: white space, a separator or a closing bracket.\<close>

fun step_after :: "pstate \<Rightarrow> nat \<Rightarrow> pstate option" where
  "step_after (MDone v, st) c = (if is_json_ws c then Some (MDone v, st) else None)"
| "step_after (MAfter, st) c =
     (if is_json_ws c then Some (MAfter, st)
      else if c = 0x2C then
        (case st of FArr xs # st' \<Rightarrow> Some (MValue, st)
         | FObj ps # st' \<Rightarrow> Some (MObjKey, st)
         | _ \<Rightarrow> None)
      else if c = 0x5D then close_array st
      else if c = 0x7D then close_object st
      else None)"
| "step_after (m, st) c = None"

definition num_complete :: "numst \<Rightarrow> bool" where
  "num_complete ns = (ns = NZero \<or> ns = NInt \<or> ns = NFrac \<or> ns = NExpDigits)"

text \<open>The next state of a number, or None when the code unit does not continue it.\<close>

fun num_next :: "numst \<Rightarrow> nat \<Rightarrow> numst option" where
  "num_next NMinus c = (if c = 0x30 then Some NZero else if is_digit c then Some NInt else None)"
| "num_next NZero c =
     (if c = 0x2E then Some NDot else if c = 0x65 \<or> c = 0x45 then Some NExp else None)"
| "num_next NInt c =
     (if is_digit c then Some NInt else if c = 0x2E then Some NDot
      else if c = 0x65 \<or> c = 0x45 then Some NExp else None)"
| "num_next NDot c = (if is_digit c then Some NFrac else None)"
| "num_next NFrac c =
     (if is_digit c then Some NFrac else if c = 0x65 \<or> c = 0x45 then Some NExp else None)"
| "num_next NExp c =
     (if c = 0x2B \<or> c = 0x2D then Some NExpSign else if is_digit c then Some NExpDigits
      else None)"
| "num_next NExpSign c = (if is_digit c then Some NExpDigits else None)"
| "num_next NExpDigits c = (if is_digit c then Some NExpDigits else None)"

definition escape_char :: "nat \<Rightarrow> nat option" where
  "escape_char c =
     (if c = 0x22 \<or> c = 0x5C \<or> c = 0x2F then Some c
      else if c = 0x62 then Some 0x08
      else if c = 0x66 then Some 0x0C
      else if c = 0x6E then Some 0x0A
      else if c = 0x72 then Some 0x0D
      else if c = 0x74 then Some 0x09
      else None)"

definition end_string :: "bool \<Rightarrow> jsstring \<Rightarrow> frame list \<Rightarrow> pstate option" where
  "end_string key acc st = (if key then Some (MColon, FKey acc # st) else complete (JStr acc) st)"

fun step :: "pstate \<Rightarrow> nat \<Rightarrow> pstate option" where
  "step (MValue, st) c = (if is_json_ws c then Some (MValue, st) else begin_value c st)"
| "step (MArrStart, st) c =
     (if is_json_ws c then Some (MArrStart, st)
      else if c = 0x5D then close_array st
      else begin_value c st)"
| "step (MObjStart, st) c =
     (if is_json_ws c then Some (MObjStart, st)
      else if c = 0x7D then close_object st
      else if c = 0x22 then Some (MStr True [] SNormal, st)
      else None)"
| "step (MObjKey, st) c =
     (if is_json_ws c then Some (MObjKey, st)
      else if c = 0x22 then Some (MStr True [] SNormal, st)
      else None)"
| "step (MColon, st) c =
     (if is_json_ws c then Some (MColon, st)
      else if c = 0x3A then Some (MValue, st)
      else None)"
| "step (MStr key acc SNormal, st) c =
     (if c = 0x22 then end_string key acc st
      else if c = 0x5C then Some (MStr key acc SEscape, st)
      else if c < 0x20 then None
      else Some (MStr key (acc @ [c]) SNormal, st))"
| "step (MStr key acc SEscape, st) c =
     (if c = 0x75 then Some (MStr key acc (SHex []), st)
      else (case escape_char c of
              Some e \<Rightarrow> Some (MStr key (acc @ [e]) SNormal, st)
            | None \<Rightarrow> None))"
| "step (MStr key acc (SHex ds), st) c =
     (if \<not> is_hex c then None
      else if length ds < 3 then Some (MStr key acc (SHex (ds @ [hex_val c])), st)
      else Some (MStr key (acc @ [foldl (\<lambda>n d. 16 * n + d) 0 (ds @ [hex_val c])]) SNormal, st))"
| "step (MNum ns lit, st) c =
     (case num_next ns c of
        Some ns' \<Rightarrow> Some (MNum ns' (lit @ [c]), st)
      | None \<Rightarrow>
          if num_complete ns
          then (case complete (JNum lit) st of Some s \<Rightarrow> step_after s c | None \<Rightarrow> None)
          else None)"
| "step (MLit [] v, st) c = None"
| "step (MLit [x] v, st) c = (if c = x then complete v st else None)"
| "step (MLit (x # y # ys) v, st) c = (if c = x then Some (MLit (y # ys) v, st) else None)"
| "step (MAfter, st) c = step_after (MAfter, st) c"
| "step (MDone v, st) c = step_after (MDone v, st) c"

fun steps :: "pstate \<Rightarrow> jsstring \<Rightarrow> pstate option" where
  "steps s [] = Some s"
| "steps s (c # cs) = (case step s c of None \<Rightarrow> None | Some s' \<Rightarrow> steps s' cs)"

text \<open>At the end of the text the value must be complete and no container open.\<close>

fun finish :: "pstate \<Rightarrow> json option" where
  "finish (MDone v, st) = Some v"
| "finish (MNum ns lit, []) = (if num_complete ns then Some (JNum lit) else None)"
| "finish s = None"

definition JSON_parse :: "jsstring \<Rightarrow> json option" where
  "JSON_parse text = (case steps (MValue, []) text of None \<Rightarrow> None | Some s \<Rightarrow> finish s)"

text \<open>Reading a property of a parsed value: \<open>undefined\<close> (None) when the value is not
  an object or has no such property.\<close>

fun get_prop :: "json \<Rightarrow> jsstring \<Rightarrow> json option" where
  "get_prop (JObj ps) k = map_of ps k"
| "get_prop v k = None"

text \<open>
  ToBoolean of a parsed value, as \<^verbatim>\<open>&&\<close> and \<^verbatim>\<open>!\<close> apply it: null, false, 0 and the
  empty string are falsy. A number literal denotes 0 when no digit in front of its
  exponent is other than 0 (the rounding of a tiny non-zero literal to 0 is not modelled).
\<close>

definition zero_literal :: "jsstring \<Rightarrow> bool" where
  "zero_literal lit =
     list_all (\<lambda>c. \<not> (0x31 \<le> c \<and> c \<le> 0x39)) (takeWhile (\<lambda>c. c \<noteq> 0x65 \<and> c \<noteq> 0x45) lit)"

fun truthy :: "json \<Rightarrow> bool" where
  "truthy JNull = False"
| "truthy (JBool b) = b"
| "truthy (JNum lit) = (\<not> zero_literal lit)"
| "truthy (JStr s) = (s \<noteq> [])"
| "truthy (JArr xs) = True"
| "truthy (JObj ps) = True"


section \<open>Analysis Client: analyzeFinancialData (services/geminiService.ts)\<close>

text \<open>The messages of the three \<^verbatim>\<open>new Error(...)\<close> of the function, in source order: no
  API key, the prefix put in front of every error caught, no response text.\<close>

definition NO_API_KEY :: jsstring where
  "NO_API_KEY =
     [0x0E44, 0x0E21, 0x0E48, 0x0E1E, 0x0E1A] @ ascii '' API Key '' @ [0x0E01, 0x0E23,
      0x0E38, 0x0E13, 0x0E32, 0x0E15, 0x0E31, 0x0E49, 0x0E07, 0x0E04, 0x0E48, 0x0E32] @
      ascii '' Environment Variable (VITE_API_KEY)''"

definition ERR_PREFIX :: jsstring where
  "ERR_PREFIX =
     [0x0E40, 0x0E01, 0x0E34, 0x0E14, 0x0E02, 0x0E49, 0x0E2D, 0x0E1C, 0x0E34, 0x0E14,
      0x0E1E, 0x0E25, 0x0E32, 0x0E14, 0x0E43, 0x0E19, 0x0E01, 0x0E32, 0x0E23, 0x0E27,
      0x0E34, 0x0E40, 0x0E04, 0x0E23, 0x0E32, 0x0E30, 0x0E2B, 0x0E4C, 0x0E02, 0x0E49,
      0x0E2D, 0x0E21, 0x0E39, 0x0E25] @ ascii '': ''"

definition NO_RESPONSE :: jsstring where
  "NO_RESPONSE =
     [0x0E44, 0x0E21, 0x0E48, 0x0E44, 0x0E14, 0x0E49, 0x0E23, 0x0E31, 0x0E1A, 0x0E02,
      0x0E49, 0x0E2D, 0x0E21, 0x0E39, 0x0E25, 0x0E15, 0x0E2D, 0x0E1A, 0x0E01, 0x0E25,
      0x0E31, 0x0E1A, 0x0E08, 0x0E32, 0x0E01] @ ascii '' AI''"

record FileData =
  data :: jsstring
  mimeType :: jsstring

text \<open>
  The argument of \<^verbatim>\<open>ai.models.generateContent\<close>. The text part (the prompt) and the
  config (response MIME type and schema) are constants of the source that do not depend
  on the file; the record keeps the model name and the inline data part.
\<close>

record GenerateContentRequest =
  model :: jsstring
  inlineData :: FileData

text \<open>\<^verbatim>\<open>response.text\<close> is a string or undefined.\<close>

record GenerateContentResponse =
  response_text :: "jsstring option"

text \<open>
  What a \<^verbatim>\<open>catch\<close> can receive: an Error object with its message, or any other
  value, kept as the string \<^verbatim>\<open>String(value)\<close>.
\<close>

datatype thrown = Error jsstring | Thrown jsstring

text \<open>
  What the function reads from outside: the environment variable (absent or a string),
  the hosted model behind \<^verbatim>\<open>generateContent\<close> (the promise rejects or resolves), and
  the message the engine puts into the SyntaxError of \<^verbatim>\<open>JSON.parse\<close> for a text.
\<close>

record env =
  VITE_API_KEY :: "jsstring option"
  generateContent :: "GenerateContentRequest \<Rightarrow> thrown + GenerateContentResponse"
  syntaxErrorMessage :: "jsstring \<Rightarrow> jsstring"

text \<open>\<^verbatim>\<open>const apiKey = import.meta.env.VITE_API_KEY || '';\<close>\<close>

definition apiKey :: "env \<Rightarrow> jsstring" where
  "apiKey e = (case VITE_API_KEY e of None \<Rightarrow> [] | Some k \<Rightarrow> k)"

text \<open>
  \<^verbatim>\<open>
  catch (error) {
    throw new Error(PREFIX + (error instanceof Error ? error.message : String(error)));
  }
  \<close>
\<close>

definition rethrow :: "thrown \<Rightarrow> thrown" where
  "rethrow error = Error (ERR_PREFIX @ (case error of Error message \<Rightarrow> message | Thrown s \<Rightarrow> s))"

text \<open>
  The body of the \<^verbatim>\<open>try\<close> after the request has resolved (lines 127-135):
  an empty or undefined text is falsy and throws; otherwise the cleaned text is parsed
  and the parsed value returned as it is (\<^verbatim>\<open>as AnalysisResult\<close> is a compile-time cast
  that checks nothing at run time).
\<close>

definition handle_response :: "env \<Rightarrow> GenerateContentResponse \<Rightarrow> thrown + json" where
  "handle_response e response =
     (case response_text response of
        None \<Rightarrow> Inl (Error NO_RESPONSE)
      | Some t \<Rightarrow>
          if t = [] then Inl (Error NO_RESPONSE)
          else (case JSON_parse (cleanText t) of
                  None \<Rightarrow> Inl (Error (syntaxErrorMessage e (cleanText t)))
                | Some v \<Rightarrow> Inr v))"

text \<open>
  The result is what the promise settles with (Inl: rejected with this value) together
  with the requests sent to the hosted model, in order. The check of the key is in
  front of the \<^verbatim>\<open>try\<close>, so its error is not wrapped by the \<^verbatim>\<open>catch\<close>.
\<close>

definition analyzeFinancialData ::
  "env \<Rightarrow> FileData \<Rightarrow> (thrown + json) \<times> GenerateContentRequest list" where
  "analyzeFinancialData e file =
     (if apiKey e = [] then (Inl (Error NO_API_KEY), [])
      else
        let request = \<lparr>model = ascii ''gemini-2.5-flash'', inlineData = file\<rparr> in
        (case generateContent e request of
           Inl error \<Rightarrow> (Inl (rethrow error), [request])
         | Inr response \<Rightarrow>
             (case handle_response e response of
                Inl error \<Rightarrow> (Inl (rethrow error), [request])
              | Inr result \<Rightarrow> (Inr result, [request]))))"


section \<open>Application State Machine (App.tsx)\<close>

datatype AppState = UPLOAD | ANALYZING | RESULT | ERROR

definition UNKNOWN_ERROR :: jsstring where
  "UNKNOWN_ERROR =
     [0x0E40, 0x0E01, 0x0E34, 0x0E14, 0x0E02, 0x0E49, 0x0E2D, 0x0E1C, 0x0E34, 0x0E14,
      0x0E1E, 0x0E25, 0x0E32, 0x0E14, 0x0E17, 0x0E35, 0x0E48, 0x0E44, 0x0E21, 0x0E48,
      0x0E17, 0x0E23, 0x0E32, 0x0E1A, 0x0E2A, 0x0E32, 0x0E40, 0x0E2B, 0x0E15, 0x0E38]"

text \<open>
  The four \<^verbatim>\<open>useState\<close> cells of the component (\<open>analysisData\<close> is a result or
  null, here \<open>JNull\<close>), and what the event loop holds for it: whether the progress
  interval is running, the file of the request being awaited, and the result captured by
  the pending \<^verbatim>\<open>setTimeout\<close> callback.
\<close>

record app =
  state :: AppState
  analysisData :: json
  errorMessage :: jsstring
  analysisProgress :: int
  progressInterval :: bool
  awaiting :: "FileData option"
  pendingResult :: "json option"

definition initial :: app where
  "initial = \<lparr>state = UPLOAD, analysisData = JNull, errorMessage = [], analysisProgress = 0,
     progressInterval = False, awaiting = None, pendingResult = None\<rparr>"

text \<open>handleFileUpload up to the \<^verbatim>\<open>await\<close> (lines 18-30).\<close>

definition handleFileUpload_start :: "FileData \<Rightarrow> app \<Rightarrow> app" where
  "handleFileUpload_start file s =
     s\<lparr>state := ANALYZING, analysisProgress := 0, progressInterval := True,
       awaiting := Some file\<rparr>"

text \<open>The callback of the interval: \<^verbatim>\<open>prev => { if (prev >= 90) return prev; return prev + 2; }\<close>\<close>

definition progress_tick :: "int \<Rightarrow> int" where
  "progress_tick prev = (if prev \<ge> 90 then prev else prev + 2)"

definition tick :: "app \<Rightarrow> app" where
  "tick s = s\<lparr>analysisProgress := progress_tick (analysisProgress s)\<rparr>"

text \<open>handleFileUpload after the \<^verbatim>\<open>await\<close>: lines 31-38 when the promise resolved,
  the \<^verbatim>\<open>catch\<close> of lines 40-45 when it rejected.\<close>

definition handleFileUpload_settled :: "thrown + json \<Rightarrow> app \<Rightarrow> app" where
  "handleFileUpload_settled outcome s =
     (case outcome of
        Inr result \<Rightarrow>
          s\<lparr>progressInterval := False, analysisProgress := 100, pendingResult := Some result,
            awaiting := None\<rparr>
      | Inl error \<Rightarrow>
          s\<lparr>progressInterval := False,
            errorMessage := (case error of Error message \<Rightarrow> message | Thrown _ \<Rightarrow> UNKNOWN_ERROR),
            state := ERROR, awaiting := None\<rparr>)"

text \<open>The callback of \<^verbatim>\<open>setTimeout(..., 500)\<close> (lines 35-38).\<close>

definition timeout_fired :: "json \<Rightarrow> app \<Rightarrow> app" where
  "timeout_fired result s = s\<lparr>analysisData := result, state := RESULT, pendingResult := None\<rparr>"

definition handleReset :: "app \<Rightarrow> app" where
  "handleReset s = s\<lparr>state := UPLOAD, analysisData := JNull, errorMessage := [], analysisProgress := 0\<rparr>"

text \<open>
  One step of the application. The guards are those of the render function and of the
  event loop: the upload widget exists only in UPLOAD (line 93), the reset buttons only in
  ERROR (line 135) and in the dashboard, which is rendered under
  \<^verbatim>\<open>state === AppState.RESULT && analysisData\<close> (line 151); a timer fires only while it is set, and
  the awaited promise settles once, with the outcome of analyzeFinancialData for the file.
\<close>

inductive step_app :: "env \<Rightarrow> app \<Rightarrow> app \<Rightarrow> bool" for e :: env where
  submit: "state s = UPLOAD \<Longrightarrow> step_app e s (handleFileUpload_start file s)"
| interval: "progressInterval s \<Longrightarrow> step_app e s (tick s)"
| settle: "awaiting s = Some file \<Longrightarrow>
     step_app e s (handleFileUpload_settled (fst (analyzeFinancialData e file)) s)"
| timeout: "pendingResult s = Some result \<Longrightarrow> step_app e s (timeout_fired result s)"
| reset: "state s = ERROR \<or> (state s = RESULT \<and> truthy (analysisData s)) \<Longrightarrow>
     step_app e s (handleReset s)"

definition reachable :: "env \<Rightarrow> app \<Rightarrow> bool" where
  "reachable e s = (step_app e)\<^sup>*\<^sup>* initial s"


section \<open>Dashboard: filtering and export (components, Dashboard)\<close>

text \<open>
  The interfaces of types.ts. Numbers are carried and never computed with here, so their
  type is a parameter. \<open>status\<close> and \<open>trend\<close> are strings at run time. The optional field
  is an option. The three collections that the dashboard guards with \<^verbatim>\<open>!data.x\<close> or
  \<^verbatim>\<open>data.x?.length\<close> are options as well (the field names of the ratio and of the
  department carry a prefix, \<open>value\<close> being a keyword).
\<close>

record 'n FinancialRatio =
  ratio_name :: jsstring
  ratio_value :: 'n
  ratio_unit :: jsstring
  ratio_status :: jsstring
  ratio_description :: jsstring

record 'n DepartmentAnalysis =
  dept_name :: jsstring
  revenue :: 'n
  expense :: 'n
  profit :: 'n
  liquidityComment :: jsstring

record 'n SignificantChange =
  item :: jsstring
  amount :: 'n
  percentage :: jsstring
  trend :: jsstring
  reason :: jsstring
  relatedDepartment :: "jsstring option"

record 'n AnalysisResult =
  overallAnalysis :: jsstring
  formalReport :: jsstring
  ratios :: "'n FinancialRatio list option"
  departments :: "'n DepartmentAnalysis list option"
  significantChanges :: "'n SignificantChange list option"
  topHighItems :: "jsstring list"
  topLowItems :: "jsstring list"

text \<open>
  \<^verbatim>\<open>
  const depts = new Set<string>(['All']);
  if (data.departments) data.departments.forEach(d => depts.add(d.name));
  if (data.significantChanges) data.significantChanges.forEach(c => {
    if (c.relatedDepartment) depts.add(c.relatedDepartment); });
  return Array.from(depts).sort();
  \<close>
  The default sort compares code units, which is the lexicographic order of the lists.
\<close>

definition availableDepartments :: "'n AnalysisResult \<Rightarrow> jsstring list" where
  "availableDepartments d =
     sort (remdups
       ([ascii ''All''] @
        (case departments d of None \<Rightarrow> [] | Some ds \<Rightarrow> map dept_name ds) @
        (case significantChanges d of None \<Rightarrow> []
         | Some cs \<Rightarrow>
             concat (map (\<lambda>c. case relatedDepartment c of None \<Rightarrow> []
                                | Some r \<Rightarrow> if r = [] then [] else [r]) cs))))"

text \<open>
  \<^verbatim>\<open>
  if (!data.significantChanges) return [];
  if (selectedDept === 'All') return data.significantChanges;
  return data.significantChanges.filter(item =>
    item.relatedDepartment === selectedDept ||
    (item.relatedDepartment === 'General' && selectedDept === 'All'));
  \<close>
\<close>

definition filteredChanges :: "'n AnalysisResult \<Rightarrow> jsstring \<Rightarrow> 'n SignificantChange list" where
  "filteredChanges d selectedDept =
     (case significantChanges d of
        None \<Rightarrow> []
      | Some cs \<Rightarrow>
          if selectedDept = ascii ''All'' then cs
          else filter (\<lambda>it.
                 relatedDepartment it = Some selectedDept \<or>
                 (relatedDepartment it = Some (ascii ''General'') \<and> selectedDept = ascii ''All''))
               cs)"

text \<open>The department cell of a table row: \<^verbatim>\<open>{item.relatedDepartment || 'General'}\<close>.\<close>

definition department_cell :: "'n SignificantChange \<Rightarrow> jsstring" where
  "department_cell it =
     (case relatedDepartment it of
        None \<Rightarrow> ascii ''General''
      | Some r \<Rightarrow> if r = [] then ascii ''General'' else r)"

























section \<open>Example inputs\<close>

text \<open>An environment with a key whose model answers every request with the text \<open>t\<close>,
  and an uploaded file (the base64 of a two-line CSV).\<close>

definition example_env :: "jsstring \<Rightarrow> env" where
  "example_env t =
     \<lparr>VITE_API_KEY = Some (ascii ''key''),
      generateContent = (\<lambda>request. Inr \<lparr>response_text = Some t\<rparr>),
      syntaxErrorMessage = (\<lambda>text. ascii ''Unexpected token'')\<rparr>"

definition example_file :: FileData where
  "example_file = \<lparr>data = ascii ''YSxiCjEsMg=='', mimeType = ascii ''text/csv''\<rparr>"


text \<open>Response texts: a ratio whose status is outside the closed set, a truncated
  document, and a significant change that has no relatedDepartment.\<close>

definition unknown_status_text :: jsstring where
  \<open>unknown_status_text = ascii
     ''{"ratios":[{"name":"Current Ratio","value":1.5,"unit":"x","status":"unknown","description":"ok"}]}''\<close>

definition unknown_status_value :: json where
  "unknown_status_value =
     JObj [(ascii ''ratios'', JArr [JObj
       [(ascii ''name'', JStr (ascii ''Current Ratio'')),
        (ascii ''value'', JNum (ascii ''1.5'')),
        (ascii ''unit'', JStr (ascii ''x'')),
        (ascii ''status'', JStr (ascii ''unknown'')),
        (ascii ''description'', JStr (ascii ''ok''))]])]"

definition malformed_text :: jsstring where
  \<open>malformed_text = ascii ''{"ratios":[''\<close>

definition absent_department_text :: jsstring where
  \<open>absent_department_text = ascii
     ''{"item":"Rent","amount":100,"percentage":"+10%","trend":"increase","reason":"new lease"}''\<close>

text \<open>Typed results for the dashboard: a significant change with a given department,
  a ratio, and a result holding given changes and ratios.\<close>

definition example_change :: "jsstring option \<Rightarrow> int SignificantChange" where
  "example_change dept =
     \<lparr>item = ascii ''Rent'', amount = 100, percentage = ascii ''+10%'', trend = ascii ''increase'',
      reason = ascii ''new lease'', relatedDepartment = dept\<rparr>"


definition example_result ::
  "int SignificantChange list \<Rightarrow> int FinancialRatio list \<Rightarrow> int AnalysisResult" where
  "example_result cs rs =
     \<lparr>overallAnalysis = ascii ''summary'', formalReport = ascii ''## 1. report'',
      ratios = Some rs, departments = Some [], significantChanges = Some cs,
      topHighItems = [], topLowItems = []\<rparr>"


section \<open>Predicates used in the proofs\<close>

text \<open>The characters still expected of a literal are lower-case letters: true of every
  state the recogniser reaches.\<close>

definition lit_ok :: "pstate \<Rightarrow> bool" where
  "lit_ok s = (case fst s of MLit r v \<Rightarrow> list_all (\<lambda>c. 0x61 \<le> c \<and> c \<le> 0x7A) r | _ \<Rightarrow> True)"

text \<open>A code unit that is white space for \<open>trim\<close> and \<^verbatim>\<open>\s\<close> but not for JSON, or a
  backtick: outside a string literal no JSON text contains one.\<close>

definition stray :: "nat \<Rightarrow> bool" where
  "stray c = (\<not> is_json_ws c \<and> (is_js_space c \<or> c = 0x60))"

text \<open>What holds of every state the application reaches.\<close>

definition app_inv :: "env \<Rightarrow> app \<Rightarrow> bool" where
  "app_inv e s =
     (case state s of
        UPLOAD \<Rightarrow>
          \<not> progressInterval s \<and> awaiting s = None \<and> pendingResult s = None \<and>
          analysisProgress s = 0
      | ANALYZING \<Rightarrow>
          (progressInterval s \<and> awaiting s \<noteq> None \<and> pendingResult s = None \<and>
           0 \<le> analysisProgress s \<and> analysisProgress s \<le> 90 \<and> even (analysisProgress s)) \<or>
          (\<not> progressInterval s \<and> awaiting s = None \<and> analysisProgress s = 100 \<and>
           (\<exists>file r. pendingResult s = Some r \<and> fst (analyzeFinancialData e file) = Inr r))
      | RESULT \<Rightarrow>
          \<not> progressInterval s \<and> awaiting s = None \<and> pendingResult s = None \<and>
          analysisProgress s = 100 \<and>
          (\<exists>file. fst (analyzeFinancialData e file) = Inr (analysisData s))
      | ERROR \<Rightarrow>
          \<not> progressInterval s \<and> awaiting s = None \<and> pendingResult s = None)"


section \<open>Strings and the recogniser: lemmas\<close>


lemma startsWith_prefix: "startsWith s p \<longleftrightarrow> prefix p s"
  by (induction s p rule: startsWith.induct) auto

lemma endsWith_suffix: "endsWith s p \<longleftrightarrow> suffix p s"
  by (simp add: endsWith_def startsWith_prefix suffix_to_prefix)

lemma includes_str_sublist: "includes_str s t \<longleftrightarrow> sublist t s"
  by (induction s) (auto simp: startsWith_prefix sublist_Cons_right)

lemma json_ws_js_space: "is_json_ws c \<Longrightarrow> is_js_space c"
  by (auto simp: is_json_ws_def is_js_space_def)

lemma complete_finish:
  "complete v st = Some s \<Longrightarrow> finish s = (if st = [] then Some v else None)"
  by (induction v st rule: complete.induct) auto

lemma step_after_ws:
  "is_json_ws c \<Longrightarrow> step_after s c = Some s' \<Longrightarrow> s' = s"
  by (induction s c rule: step_after.induct) (auto split: if_splits)

lemma num_next_ws: "is_json_ws c \<Longrightarrow> num_next ns c = None"
  by (cases ns) (auto simp: is_json_ws_def is_digit_def)


lemma complete_lit_ok: "complete v st = Some s \<Longrightarrow> lit_ok s"
  by (induction v st rule: complete.induct) (auto simp: lit_ok_def)

lemma step_after_lit_ok: "step_after s c = Some s' \<Longrightarrow> lit_ok s'"
  by (induction s c rule: step_after.induct)
     (auto simp: lit_ok_def close_array_def close_object_def split: if_splits list.splits frame.splits
           dest: complete_lit_ok)

lemma begin_value_lit_ok: "begin_value c st = Some s' \<Longrightarrow> lit_ok s'"
  by (auto simp: begin_value_def lit_ok_def ascii_def split: if_splits)

lemma step_lit_ok: "lit_ok s \<Longrightarrow> step s c = Some s' \<Longrightarrow> lit_ok s'"
proof (induction s c rule: step.induct)
  case (9 ns lit st c)
  then show ?case
    by (auto split: option.splits if_splits dest: step_after_lit_ok simp: lit_ok_def)
qed (auto simp: close_array_def close_object_def end_string_def
          split: if_splits list.splits frame.splits option.splits
          dest: complete_lit_ok begin_value_lit_ok step_after_lit_ok, 
     auto simp: lit_ok_def)

lemma steps_lit_ok: "lit_ok s \<Longrightarrow> steps s cs = Some s' \<Longrightarrow> lit_ok s'"
  by (induction cs arbitrary: s) (auto split: option.splits dest: step_lit_ok)

lemma step_ws_finish:
  assumes "is_json_ws c" "step s c = Some s'" "finish s' = Some v" "lit_ok s"
  shows "finish s = Some v"
proof (cases s)
  case (Pair m st)
  show ?thesis
  proof (cases m)
    case (MNum ns lit)
    with Pair assms show ?thesis
      by (cases st) (auto simp: num_next_ws  split: if_splits option.splits dest!: step_after_ws complete_finish)
  next
    case (MStr key acc ss)
    with Pair assms show ?thesis
      by (cases ss) (auto simp: is_json_ws_def end_string_def escape_char_def split: if_splits option.splits)
  next
    case (MLit r v)
    with Pair assms show ?thesis
      apply (cases r) apply simp
      subgoal for x xs by (cases xs) (auto simp: is_json_ws_def lit_ok_def split: if_splits dest!: complete_finish)
      done
  qed (use Pair assms in \<open>auto simp: is_json_ws_def begin_value_def close_array_def close_object_def is_digit_def split: if_splits dest!: step_after_ws\<close>)
qed

lemma stray_step_after: "stray c \<Longrightarrow> step_after s c = None"
  by (induction s c rule: step_after.induct) (auto simp: stray_def is_js_space_def)

lemma stray_num_next: "stray c \<Longrightarrow> num_next ns c = None"
  by (cases ns) (auto simp: stray_def is_js_space_def is_digit_def)

lemma stray_begin_value: "stray c \<Longrightarrow> begin_value c st = None"
  by (auto simp: stray_def is_js_space_def begin_value_def is_digit_def)

lemma stray_facts:
  assumes "stray c"
  shows "\<not> is_json_ws c" "c \<noteq> 0x22" "c \<noteq> 0x5D" "c \<noteq> 0x7D" "c \<noteq> 0x3A" "c \<noteq> 0x2C"
    "c \<noteq> 0x5C" "c \<noteq> 0x75" "\<not> is_hex c" "escape_char c = None" "\<not> (0x61 \<le> c \<and> c \<le> 0x7A)"
  using assms
  by (auto simp: stray_def is_js_space_def is_hex_def is_digit_def escape_char_def)

lemma stray_step_finish:
  assumes "stray c" "step s c = Some s'" "lit_ok s"
  shows "finish s' = None"
proof (cases s)
  case (Pair m st)
  note sf = stray_facts [OF assms(1)]
  show ?thesis
  proof (cases m)
    case (MNum ns lit)
    with Pair assms show ?thesis
      by (auto simp: stray_num_next stray_step_after split: if_splits option.splits)
  next
    case (MStr key acc ss)
    with Pair assms(2) sf show ?thesis
      by (cases ss) (auto split: if_splits)
  next
    case (MLit r v)
    with Pair assms(2,3) sf show ?thesis
      apply (cases r) apply simp
      subgoal for x xs by (cases xs) (auto simp: lit_ok_def split: if_splits)
      done
  qed (use Pair assms(1,2) sf in \<open>auto simp: stray_begin_value stray_step_after\<close>)
qed

lemma steps_append:
  "steps s (xs @ ys) = (case steps s xs of None \<Rightarrow> None | Some s' \<Rightarrow> steps s' ys)"
  by (induction xs arbitrary: s) (auto split: option.splits)


lemma lit_ok_init: "lit_ok (MValue, [])"
  by (simp add: lit_ok_def)

lemma space_cases: "is_js_space c \<Longrightarrow> is_json_ws c \<or> stray c"
  by (auto simp: stray_def)

lemma begin_value_not_ws: "begin_value c st = Some s \<Longrightarrow> \<not> is_js_space c \<and> c \<noteq> 0x60 \<and> c \<noteq> 0x6A"
  by (auto simp: begin_value_def is_js_space_def is_digit_def split: if_splits)

text \<open>Leading white space.\<close>

lemma parse_dropWhile:
  assumes "JSON_parse t = Some v"
  shows "\<exists>c cs. dropWhile is_js_space t = c # cs \<and> begin_value c [] \<noteq> None \<and>
           JSON_parse (c # cs) = Some v"
  using assms
proof (induction t)
  case Nil
  then show ?case by (simp add: JSON_parse_def)
next
  case (Cons a t)
  show ?case
  proof (cases "is_js_space a")
    case True
    from Cons.prems have st: "step (MValue, []) a \<noteq> None"
      by (auto simp: JSON_parse_def split: option.splits)
    have "is_json_ws a"
    proof (rule ccontr)
      assume "\<not> is_json_ws a"
      with True have "stray a" by (simp add: stray_def)
      then have "step (MValue, []) a = None" by (simp add: stray_begin_value stray_facts)
      with st show False by simp
    qed
    then have "JSON_parse (a # t) = JSON_parse t" by (simp add: JSON_parse_def)
    with Cons True show ?thesis by simp
  next
    case False
    then have nws: "\<not> is_json_ws a" using json_ws_js_space by blast
    from Cons.prems have "step (MValue, []) a \<noteq> None"
      by (auto simp: JSON_parse_def split: option.splits)
    with nws have "begin_value a [] \<noteq> None" by simp
    with False Cons.prems show ?thesis by simp
  qed
qed

text \<open>Trailing white space.\<close>

lemma parse_dropWhile_rev:
  assumes "JSON_parse t = Some v"
  shows "JSON_parse (rev (dropWhile is_js_space (rev t))) = Some v \<and>
         rev (dropWhile is_js_space (rev t)) \<noteq> [] \<and>
         last (rev (dropWhile is_js_space (rev t))) \<noteq> 0x60"
  using assms
proof (induction t rule: rev_induct)
  case Nil
  then show ?case by (simp add: JSON_parse_def)
next
  case (snoc a t)
  from snoc.prems obtain s s' where s: "steps (MValue, []) t = Some s"
    and s': "step s a = Some s'" and f: "finish s' = Some v"
    by (auto simp: JSON_parse_def steps_append split: option.splits)
  have ok: "lit_ok s" using steps_lit_ok [OF lit_ok_init s] .
  have ns: "\<not> stray a" using stray_step_finish [OF _ s' ok] f by auto
  show ?case
  proof (cases "is_js_space a")
    case True
    with ns have "is_json_ws a" using space_cases by blast
    from step_ws_finish [OF this s' f ok] s have "JSON_parse t = Some v"
      by (simp add: JSON_parse_def)
    with snoc.IH True show ?thesis by simp
  next
    case False
    with ns have "a \<noteq> 0x60" by (auto simp: stray_def dest: json_ws_js_space)
    with False snoc.prems show ?thesis by simp
  qed
qed

lemma trim_Cons:
  assumes "dropWhile is_js_space t = c # cs"
  shows "\<exists>cs'. trim t = c # cs'"
proof -
  have c: "\<not> is_js_space c" using assms by (metis dropWhile_eq_Cons_conv)
  have "dropWhile is_js_space (rev cs @ [c]) = (dropWhile is_js_space (rev cs)) @ [c]"
    using c by (simp add: dropWhile_append3)
  then show ?thesis using assms by (simp add: trim_def)
qed

lemma parse_trim:
  assumes "JSON_parse t = Some v"
  shows "JSON_parse (trim t) = Some v"
    and "\<exists>c cs. trim t = c # cs \<and> begin_value c [] \<noteq> None"
    and "last (trim t) \<noteq> 0x60"
proof -
  from parse_dropWhile [OF assms] obtain c cs where d: "dropWhile is_js_space t = c # cs"
    and b: "begin_value c [] \<noteq> None" and p: "JSON_parse (c # cs) = Some v"
    by blast
  from parse_dropWhile_rev [OF p] d
  show "JSON_parse (trim t) = Some v" and "last (trim t) \<noteq> 0x60"
    by (simp_all add: trim_def)
  from trim_Cons [OF d] b show "\<exists>c cs. trim t = c # cs \<and> begin_value c [] \<noteq> None"
    by blast
qed


lemma FENCE_eq: "FENCE = [0x60, 0x60, 0x60]"
  by (simp add: FENCE_def ascii_def)

lemma json_tag_eq: "ascii ''json'' = [0x6A, 0x73, 0x6F, 0x6E]"
  by (simp add: ascii_def)

lemma not_space_fence: "\<not> is_js_space 0x60"
  by (simp add: is_js_space_def)

lemma all_space_dropWhile: "list_all is_js_space a \<Longrightarrow> dropWhile is_js_space (a @ x) = dropWhile is_js_space x"
  by (simp add: list_all_iff)

lemma trim_fenced:
  assumes "list_all is_js_space a" "list_all is_js_space b"
  shows "trim (a @ FENCE @ x @ FENCE @ b) = FENCE @ x @ FENCE"
proof -
  have 1: "dropWhile is_js_space (a @ FENCE @ x @ FENCE @ b) = FENCE @ x @ FENCE @ b"
    using assms(1) by (simp add: all_space_dropWhile) (simp add: FENCE_eq not_space_fence)
  have "rev (FENCE @ x @ FENCE @ b) = rev b @ (rev FENCE @ rev x @ rev FENCE)" by simp
  also have "dropWhile is_js_space \<dots> = rev FENCE @ rev x @ rev FENCE"
    using assms(2) by (subst all_space_dropWhile) (simp_all add: FENCE_eq not_space_fence)
  finally show ?thesis using 1 by (simp add: trim_def)
qed

lemma clean_plain:
  assumes "trim t = c # cs" "c \<noteq> 0x60" "last (trim t) \<noteq> 0x60"
  shows "cleanText t = trim t"
proof -
  have "\<not> suffix FENCE (trim t)"
  proof
    assume "suffix FENCE (trim t)"
    then obtain zs where "trim t = zs @ FENCE" by (auto simp: suffix_def)
    then have "last (trim t) = 0x60" by (simp add: FENCE_eq)
    with assms(3) show False by simp
  qed
  with assms(1,2) show ?thesis
    by (simp add: cleanText_def strip_prefix_ws_def strip_suffix_fence_def FENCE_eq
        endsWith_suffix)
qed

lemma clean_fenced:
  assumes a: "list_all is_js_space a" and b: "list_all is_js_space b"
    and w1: "list_all is_js_space w1" and w2: "list_all is_js_space w2"
    and tag: "tag = [] \<or> tag = ascii ''json''"
    and d: "dropWhile is_js_space t = c # cs" and c: "c \<noteq> 0x60" "c \<noteq> 0x6A"
  shows "cleanText (a @ FENCE @ tag @ w1 @ t @ w2 @ FENCE @ b) = trim t"
proof -
  let ?rest = "w2 @ FENCE"
  have nsc: "\<not> is_js_space c" using d by (metis dropWhile_eq_Cons_conv)
  have cin: "c \<in> set t" using d by (metis list.set_intros(1) set_dropWhileD)
  have tr: "trim (a @ FENCE @ tag @ w1 @ t @ w2 @ FENCE @ b) = FENCE @ (tag @ w1 @ t @ w2) @ FENCE"
    using trim_fenced [OF a b, of "tag @ w1 @ t @ w2"] by simp
  have body: "dropWhile is_js_space (w1 @ t @ ?rest) = (c # cs) @ ?rest"
    using w1 cin nsc d by (simp add: all_space_dropWhile)
  have nj: "\<not> startsWith (w1 @ t @ ?rest) (ascii ''json'')"
  proof (cases "w1 @ t")
    case Nil
    with cin show ?thesis by simp
  next
    case (Cons h y)
    have "h \<noteq> 0x6A"
    proof (cases "is_js_space h")
      case True
      then show ?thesis by (auto simp: is_js_space_def)
    next
      case False
      have "dropWhile is_js_space (w1 @ t) = c # cs" using w1 d by (simp add: all_space_dropWhile)
      with False Cons c show ?thesis by simp
    qed
    moreover have "w1 @ t @ ?rest = h # y @ ?rest" using Cons by (metis append_Cons append_assoc)
    ultimately show ?thesis by (simp only: json_tag_eq startsWith.simps) simp
  qed
  have pre: "strip_prefix_ws FENCE (strip_prefix_ws (FENCE @ ascii ''json'')
               (FENCE @ (tag @ w1 @ t @ w2) @ FENCE)) = (c # cs) @ ?rest"
  proof (cases "tag = []")
    case True
    have "strip_prefix_ws (FENCE @ ascii ''json'') (FENCE @ (tag @ w1 @ t @ w2) @ FENCE)
          = FENCE @ w1 @ t @ ?rest"
      using True nj by (simp add: strip_prefix_ws_def startsWith_prefix)
    moreover have "strip_prefix_ws FENCE (FENCE @ w1 @ t @ ?rest) = (c # cs) @ ?rest"
      using body by (simp add: strip_prefix_ws_def startsWith_prefix)
    ultimately show ?thesis by simp
  next
    case False
    with tag have tj: "tag = ascii ''json''" by simp
    have "strip_prefix_ws (FENCE @ ascii ''json'') (FENCE @ (tag @ w1 @ t @ w2) @ FENCE)
          = (c # cs) @ ?rest"
      using tj body by (simp add: strip_prefix_ws_def startsWith_prefix)
    moreover have "strip_prefix_ws FENCE ((c # cs) @ ?rest) = (c # cs) @ ?rest"
      using c by (simp add: strip_prefix_ws_def FENCE_eq)
    ultimately show ?thesis by simp
  qed
  have "strip_suffix_fence ((c # cs) @ w2 @ FENCE) = rev (dropWhile is_js_space (rev w2 @ rev (c # cs)))"
    by (simp add: strip_suffix_fence_def endsWith_suffix suffix_def FENCE_eq)
  also have "\<dots> = rev (dropWhile is_js_space (rev (c # cs)))"
    using w2 by (subst all_space_dropWhile) simp_all
  also have "\<dots> = trim t" using d by (simp add: trim_def)
  finally show ?thesis using tr pre by (simp add: cleanText_def)
qed



section \<open>The application state machine: lemmas\<close>

lemma app_inv_initial: "app_inv e initial"
  by (simp add: app_inv_def initial_def)

lemma app_inv_step: "step_app e s s' \<Longrightarrow> app_inv e s \<Longrightarrow> app_inv e s'"
proof (induction rule: step_app.induct)
  case (submit s f)
  then show ?case by (simp add: app_inv_def handleFileUpload_start_def)
next
  case (interval s)
  then show ?case
    by (cases "state s") (auto simp: app_inv_def tick_def progress_tick_def)
next
  case (settle s f)
  then show ?case
    by (cases "state s"; cases "fst (analyzeFinancialData e f)")
       (auto simp: app_inv_def handleFileUpload_settled_def)
next
  case (timeout s result)
  then show ?case
    by (cases "state s") (auto simp: app_inv_def timeout_fired_def)
next
  case (reset s)
  then show ?case
    by (auto simp: app_inv_def handleReset_def)
qed

lemma reachable_inv: "reachable e s \<Longrightarrow> app_inv e s"
  unfolding reachable_def
  by (induction rule: rtranclp_induct) (auto intro: app_inv_initial app_inv_step)


lemma reachable_step: "reachable e s \<Longrightarrow> step_app e s s' \<Longrightarrow> reachable e s'"
  by (simp add: reachable_def)

lemma reachable_initial: "reachable e initial"
  by (simp add: reachable_def)

lemma reachable_started: "reachable e (handleFileUpload_start f initial)"
  by (rule reachable_step [OF reachable_initial]) (simp add: step_app.submit initial_def)


section \<open>Evaluation\<close>

lemmas parser_defs = JSON_parse_def ascii_def is_json_ws_def begin_value_def is_digit_def
  close_array_def close_object_def end_string_def num_complete_def is_hex_def hex_val_def
  escape_char_def

lemmas clean_defs = cleanText_def trim_def strip_prefix_ws_def strip_suffix_fence_def
  FENCE_def endsWith_def is_js_space_def

lemmas client_defs = analyzeFinancialData_def handle_response_def apiKey_def rethrow_def
  example_env_def

lemma analyze_empty_object:
  "analyzeFinancialData (example_env (ascii ''{}'')) example_file =
     (Inr (JObj []), [\<lparr>model = ascii ''gemini-2.5-flash'', inlineData = example_file\<rparr>])"
  by (simp add: client_defs clean_defs parser_defs)

lemma parse_unknown_status: "JSON_parse unknown_status_text = Some unknown_status_value"
  by (simp add: unknown_status_text_def unknown_status_value_def parser_defs)

lemma clean_unknown_status: "cleanText unknown_status_text = unknown_status_text"
  by (simp add: unknown_status_text_def clean_defs ascii_def)

lemma analyze_unknown_status:
  "analyzeFinancialData (example_env unknown_status_text) example_file =
     (Inr unknown_status_value, [\<lparr>model = ascii ''gemini-2.5-flash'', inlineData = example_file\<rparr>])"
proof -
  have "unknown_status_text \<noteq> []" by (simp add: unknown_status_text_def ascii_def)
  then show ?thesis
    by (simp add: client_defs clean_unknown_status parse_unknown_status) (simp add: ascii_def)
qed

lemma parse_malformed: "JSON_parse (cleanText malformed_text) = None"
  by (simp add: malformed_text_def clean_defs parser_defs)

lemma parse_absent_department:
  "JSON_parse absent_department_text =
     Some (JObj [(ascii ''item'', JStr (ascii ''Rent'')), (ascii ''amount'', JNum (ascii ''100'')),
                 (ascii ''percentage'', JStr (ascii ''+10%'')),
                 (ascii ''trend'', JStr (ascii ''increase'')),
                 (ascii ''reason'', JStr (ascii ''new lease''))])"
  by (simp add: absent_department_text_def parser_defs)


section \<open>The Analysis Client\<close>

text \<open>
  C3. When the configured API credential is empty or absent, every call of
  analyzeFinancialData throws the configuration error (an Error with the fixed
  missing-key message, not wrapped by the generic prefix) and issues no network
  request: the list of requests sent is empty.
\<close>

theorem C3_no_key_no_request:
  assumes "VITE_API_KEY e = None \<or> VITE_API_KEY e = Some []"
  shows "analyzeFinancialData e file = (Inl (Error NO_API_KEY), [])"
  using assms by (auto simp: analyzeFinancialData_def apiKey_def)

theorem C3_witness:
  "analyzeFinancialData ((example_env (ascii ''{}''))\<lparr>VITE_API_KEY := Some []\<rparr>) example_file
     = (Inl (Error NO_API_KEY), [])"
  using C3_no_key_no_request [of "(example_env (ascii ''{}''))\<lparr>VITE_API_KEY := Some []\<rparr>" example_file]
  by (simp add: example_env_def)

text \<open>
  C10. If the request resolves but the response carries an empty or missing text,
  analyzeFinancialData throws an Error whose message is the generic failure prefix
  followed by the fixed no-response notice; it returns no result.
\<close>

theorem C10_no_response_text:
  assumes "apiKey e \<noteq> []"
    and "generateContent e \<lparr>model = ascii ''gemini-2.5-flash'', inlineData = file\<rparr> = Inr response"
    and "response_text response = None \<or> response_text response = Some []"
  shows "analyzeFinancialData e file =
           (Inl (Error (ERR_PREFIX @ NO_RESPONSE)),
            [\<lparr>model = ascii ''gemini-2.5-flash'', inlineData = file\<rparr>])"
  using assms by (auto simp: analyzeFinancialData_def handle_response_def rethrow_def)

theorem C10_witness:
  "analyzeFinancialData (example_env []) example_file =
           (Inl (Error (ERR_PREFIX @ NO_RESPONSE)),
            [\<lparr>model = ascii ''gemini-2.5-flash'', inlineData = example_file\<rparr>])"
  using C10_no_response_text [of "example_env []" example_file "\<lparr>response_text = Some []\<rparr>"]
  by (simp add: example_env_def apiKey_def ascii_def)

text \<open>
  C5. Let \<open>t\<close> be a text that JSON.parse accepts, with value \<open>v\<close>. Wrapped in a leading
  fence (three backticks, optionally followed by \<open>json\<close>) and a trailing fence, with any
  white space between the fences and the text and around the whole, the response
  handling returns \<open>v\<close>, and it returns \<open>v\<close> for the unwrapped \<open>t\<close> as well.
\<close>

theorem C5_fence_stripping:
  assumes "JSON_parse t = Some v"
    and "tag = [] \<or> tag = ascii ''json''"
    and "list_all is_js_space a" "list_all is_js_space w1"
    and "list_all is_js_space w2" "list_all is_js_space b"
  shows "handle_response e \<lparr>response_text = Some (a @ FENCE @ tag @ w1 @ t @ w2 @ FENCE @ b)\<rparr> = Inr v \<and>
         handle_response e \<lparr>response_text = Some t\<rparr> = Inr v"
proof -
  from parse_trim [OF assms(1)] obtain c cs where p: "JSON_parse (trim t) = Some v"
    and tc: "trim t = c # cs" and b: "begin_value c [] \<noteq> None" and l: "last (trim t) \<noteq> 0x60"
    by blast
  from b have c: "c \<noteq> 0x60" "c \<noteq> 0x6A" using begin_value_not_ws by blast+
  from parse_dropWhile [OF assms(1)] tc obtain cs' where d: "dropWhile is_js_space t = c # cs'"
    using trim_Cons by fastforce
  have 1: "cleanText t = trim t" using clean_plain [OF tc c(1) l] .
  have 2: "cleanText (a @ FENCE @ tag @ w1 @ t @ w2 @ FENCE @ b) = trim t"
    using clean_fenced [OF assms(3) assms(6) assms(4) assms(5) assms(2) d c] .
  have 3: "t \<noteq> []" using tc by (auto simp: trim_def)
  have 4: "a @ FENCE @ tag @ w1 @ t @ w2 @ FENCE @ b \<noteq> []" using 3 by simp
  show ?thesis using 1 2 3 4 p by (simp add: handle_response_def)
qed

theorem C5_witness:
  \<open>handle_response (example_env [])
      \<lparr>response_text = Some (ascii ''```json'' @ [0x0A] @ ascii ''{"ratios":[]}'' @ [0x0A] @ ascii ''```'')\<rparr>
     = Inr (JObj [(ascii ''ratios'', JArr [])]) \<and>
    handle_response (example_env []) \<lparr>response_text = Some (ascii ''{"ratios":[]}'')\<rparr>
     = Inr (JObj [(ascii ''ratios'', JArr [])])\<close>
proof -
  have p: \<open>JSON_parse (ascii ''{"ratios":[]}'') = Some (JObj [(ascii ''ratios'', JArr [])])\<close>
    by (simp add: parser_defs)
  have f: "ascii ''```json'' = FENCE @ ascii ''json''" "ascii ''```'' = FENCE"
    by (simp_all add: FENCE_def ascii_def)
  show ?thesis
    using C5_fence_stripping [OF p, of "ascii ''json''" "[]" "[0x0A]" "[0x0A]" "[]" "example_env []"]
    by (simp add: f is_js_space_def)
qed


text \<open>
  C2. The claim fails on the code at the response \<^verbatim>\<open>{}\<close>: analyzeFinancialData
  returns it successfully, as the object without properties, and none of ratios,
  departments, significantChanges, topHighItems and topLowItems is present in the
  result, although the declared type of the result requires all five as arrays.
\<close>

theorem C2_empty_object_returned:
  "analyzeFinancialData (example_env (ascii ''{}'')) example_file =
     (Inr (JObj []), [\<lparr>model = ascii ''gemini-2.5-flash'', inlineData = example_file\<rparr>]) \<and>
   get_prop (JObj []) (ascii ''ratios'') = None \<and>
   get_prop (JObj []) (ascii ''departments'') = None \<and>
   get_prop (JObj []) (ascii ''significantChanges'') = None \<and>
   get_prop (JObj []) (ascii ''topHighItems'') = None \<and>
   get_prop (JObj []) (ascii ''topLowItems'') = None"
  by (simp add: analyze_empty_object)


section \<open>The Application State Machine\<close>

text \<open>
  C7. While the progress interval runs the application is in Analyzing; a tick maps the
  progress p to p + 2 when p < 90 and leaves it unchanged otherwise, and the progress
  after the tick is at most 90.
\<close>

theorem C7_tick:
  assumes "reachable e s" "progressInterval s"
  shows "state s = ANALYZING \<and>
         analysisProgress (tick s) =
           (if analysisProgress s < 90 then analysisProgress s + 2 else analysisProgress s) \<and>
         analysisProgress (tick s) \<le> 90"
proof -
  have "app_inv e s" using assms(1) by (rule reachable_inv)
  with assms(2) show ?thesis
    by (cases "state s") (auto simp: app_inv_def tick_def progress_tick_def)
qed

theorem C7_witness:
  "state (handleFileUpload_start example_file initial) = ANALYZING \<and>
   analysisProgress (tick (handleFileUpload_start example_file initial)) = 2 \<and>
   analysisProgress (tick (handleFileUpload_start example_file initial)) \<le> 90"
  using C7_tick [OF reachable_started [of "example_env []" example_file]]
  by (simp add: handleFileUpload_start_def initial_def)

text \<open>
  C6. Every step that enters Result starts in Analyzing with the progress at 100, the
  interval cleared and the request no longer awaited: the request has resolved
  successfully with the result that the pending timer holds, and the step is the firing
  of that timer (the display delay), which stores this result.
\<close>

theorem C6_result_only_after_100:
  assumes "reachable e s" "step_app e s s'" "state s' = RESULT"
  shows "state s = ANALYZING \<and> analysisProgress s = 100 \<and> \<not> progressInterval s \<and>
         awaiting s = None \<and>
         (\<exists>f r. fst (analyzeFinancialData e f) = Inr r \<and> pendingResult s = Some r \<and>
                 analysisData s' = r) \<and>
         analysisProgress s' = 100"
proof -
  have inv: "app_inv e s" using assms(1) by (rule reachable_inv)
  from assms(2) show ?thesis
  proof (cases rule: step_app.cases)
    case (submit f)
    with assms(3) show ?thesis by (simp add: handleFileUpload_start_def)
  next
    case interval
    with assms(3) inv show ?thesis by (auto simp: tick_def app_inv_def)
  next
    case (settle f)
    with assms(3) inv show ?thesis
      by (cases "fst (analyzeFinancialData e f)")
         (auto simp: handleFileUpload_settled_def app_inv_def)
  next
    case (timeout r)
    with inv show ?thesis
      by (cases "state s") (auto simp: timeout_fired_def app_inv_def)
  next
    case reset
    with assms(3) show ?thesis by (simp add: handleReset_def)
  qed
qed

theorem C6_witness:
  "reachable (example_env (ascii ''{}''))
     (handleFileUpload_settled (Inr (JObj [])) (handleFileUpload_start example_file initial)) \<and>
   state (timeout_fired (JObj [])
     (handleFileUpload_settled (Inr (JObj [])) (handleFileUpload_start example_file initial))) = RESULT \<and>
   analysisProgress
     (handleFileUpload_settled (Inr (JObj [])) (handleFileUpload_start example_file initial)) = 100"
proof -
  let ?e = "example_env (ascii ''{}'')"
  let ?s1 = "handleFileUpload_start example_file initial"
  let ?s2 = "handleFileUpload_settled (Inr (JObj [])) ?s1"
  have "step_app ?e ?s1 (handleFileUpload_settled (fst (analyzeFinancialData ?e example_file)) ?s1)"
    by (rule step_app.settle) (simp add: handleFileUpload_start_def)
  then have "step_app ?e ?s1 ?s2" by (simp add: analyze_empty_object)
  then have r: "reachable ?e ?s2" using reachable_started reachable_step by blast
  have st: "step_app ?e ?s2 (timeout_fired (JObj []) ?s2)"
    by (rule step_app.timeout) (simp add: handleFileUpload_settled_def)
  have res: "state (timeout_fired (JObj []) ?s2) = RESULT" by (simp add: timeout_fired_def)
  from C6_result_only_after_100 [OF r st res] r res show ?thesis by simp
qed

text \<open>
  C1, as stated, fails: a response that is well-formed JSON with the ratio status
  \<open>unknown\<close> is returned as a result, and the application reaches Result with it.
\<close>

theorem C1_counterexample:
  "fst (analyzeFinancialData (example_env unknown_status_text) example_file) = Inr unknown_status_value \<and>
   get_prop unknown_status_value (ascii ''ratios'') =
     Some (JArr [JObj
       [(ascii ''name'', JStr (ascii ''Current Ratio'')),
        (ascii ''value'', JNum (ascii ''1.5'')),
        (ascii ''unit'', JStr (ascii ''x'')),
        (ascii ''status'', JStr (ascii ''unknown'')),
        (ascii ''description'', JStr (ascii ''ok''))]]) \<and>
   reachable (example_env unknown_status_text)
     (timeout_fired unknown_status_value
       (handleFileUpload_settled (Inr unknown_status_value)
         (handleFileUpload_start example_file initial))) \<and>
   state (timeout_fired unknown_status_value
       (handleFileUpload_settled (Inr unknown_status_value)
         (handleFileUpload_start example_file initial))) = RESULT \<and>
   analysisData (timeout_fired unknown_status_value
       (handleFileUpload_settled (Inr unknown_status_value)
         (handleFileUpload_start example_file initial))) = unknown_status_value"
proof -
  let ?e = "example_env unknown_status_text"
  let ?v = unknown_status_value
  let ?s1 = "handleFileUpload_start example_file initial"
  let ?s2 = "handleFileUpload_settled (Inr ?v) ?s1"
  let ?s3 = "timeout_fired ?v ?s2"
  have "step_app ?e ?s1 (handleFileUpload_settled (fst (analyzeFinancialData ?e example_file)) ?s1)"
    by (rule step_app.settle) (simp add: handleFileUpload_start_def)
  then have "step_app ?e ?s1 ?s2" by (simp add: analyze_unknown_status)
  then have r2: "reachable ?e ?s2" using reachable_started reachable_step by blast
  have "step_app ?e ?s2 ?s3"
    by (rule step_app.timeout) (simp add: handleFileUpload_settled_def)
  with r2 have r3: "reachable ?e ?s3" using reachable_step by blast
  have g: "get_prop ?v (ascii ''ratios'') =
     Some (JArr [JObj
       [(ascii ''name'', JStr (ascii ''Current Ratio'')),
        (ascii ''value'', JNum (ascii ''1.5'')),
        (ascii ''unit'', JStr (ascii ''x'')),
        (ascii ''status'', JStr (ascii ''unknown'')),
        (ascii ''description'', JStr (ascii ''ok''))]])"
    by (simp add: unknown_status_value_def)
  show ?thesis using r3 g by (simp add: analyze_unknown_status timeout_fired_def)
qed

text \<open>
  C1 (amended). For every response whose text, after cleaning, is not accepted by
  JSON.parse, analyzeFinancialData throws an Error whose message is the generic failure
  prefix followed by the parser's message (by the no-response notice when the text is
  empty); the awaiting application then moves to Error with that message, and its next
  step can only be the reset to Upload, never Result.
\<close>

theorem C1_malformed_json:
  assumes "reachable e s" "awaiting s = Some file" "apiKey e \<noteq> []"
    and "generateContent e \<lparr>model = ascii ''gemini-2.5-flash'', inlineData = file\<rparr> = Inr response"
    and "response_text response = Some t"
    and "JSON_parse (cleanText t) = None"
  shows "fst (analyzeFinancialData e file) =
           Inl (Error (ERR_PREFIX @ (if t = [] then NO_RESPONSE else syntaxErrorMessage e (cleanText t)))) \<and>
         step_app e s (handleFileUpload_settled (fst (analyzeFinancialData e file)) s) \<and>
         state (handleFileUpload_settled (fst (analyzeFinancialData e file)) s) = ERROR \<and>
         errorMessage (handleFileUpload_settled (fst (analyzeFinancialData e file)) s) =
           ERR_PREFIX @ (if t = [] then NO_RESPONSE else syntaxErrorMessage e (cleanText t)) \<and>
         (\<forall>s''. step_app e (handleFileUpload_settled (fst (analyzeFinancialData e file)) s) s'' \<longrightarrow>
                state s'' = UPLOAD)"
proof -
  let ?m = "ERR_PREFIX @ (if t = [] then NO_RESPONSE else syntaxErrorMessage e (cleanText t))"
  let ?s' = "handleFileUpload_settled (fst (analyzeFinancialData e file)) s"
  have out: "fst (analyzeFinancialData e file) = Inl (Error ?m)"
    using assms(3-6) by (simp add: analyzeFinancialData_def handle_response_def rethrow_def)
  have inv: "app_inv e s" using assms(1) by (rule reachable_inv)
  have st: "step_app e s ?s'" using assms(2) by (rule step_app.settle)
  have s': "?s' = s\<lparr>progressInterval := False, errorMessage := ?m, state := ERROR, awaiting := None\<rparr>"
    by (simp add: out handleFileUpload_settled_def)
  have pend: "pendingResult s = None"
    using inv assms(2) by (cases "state s") (auto simp: app_inv_def)
  have "state s'' = UPLOAD" if "step_app e ?s' s''" for s''
    using that unfolding s'
    by (cases rule: step_app.cases) (auto simp: handleReset_def pend)
  with out st s' show ?thesis by simp
qed

theorem C1_witness:
  "fst (analyzeFinancialData (example_env malformed_text) example_file) =
     Inl (Error (ERR_PREFIX @ ascii ''Unexpected token'')) \<and>
   state (handleFileUpload_settled
            (fst (analyzeFinancialData (example_env malformed_text) example_file))
            (handleFileUpload_start example_file initial)) = ERROR"
proof -
  let ?e = "example_env malformed_text"
  have ne: "malformed_text \<noteq> []" by (simp add: malformed_text_def ascii_def)
  have r: "reachable ?e (handleFileUpload_start example_file initial)"
    by (rule reachable_started)
  have a: "awaiting (handleFileUpload_start example_file initial) = Some example_file"
    by (simp add: handleFileUpload_start_def)
  have k: "apiKey ?e \<noteq> []" by (simp add: example_env_def apiKey_def ascii_def)
  have g: "generateContent ?e \<lparr>model = ascii ''gemini-2.5-flash'', inlineData = example_file\<rparr>
             = Inr \<lparr>response_text = Some malformed_text\<rparr>"
    by (simp add: example_env_def)
  have m: "syntaxErrorMessage ?e (cleanText malformed_text) = ascii ''Unexpected token''"
    by (simp add: example_env_def)
  note c = C1_malformed_json [OF r a k g _ parse_malformed, simplified]
  from c have 1: "fst (analyzeFinancialData ?e example_file) =
      Inl (Error (ERR_PREFIX @ (if malformed_text = [] then NO_RESPONSE
                                else syntaxErrorMessage ?e (cleanText malformed_text))))"
    by blast
  from c have 2: "state (handleFileUpload_settled (fst (analyzeFinancialData ?e example_file))
      (handleFileUpload_start example_file initial)) = ERROR"
    by blast
  from 1 ne m have "fst (analyzeFinancialData ?e example_file) =
      Inl (Error (ERR_PREFIX @ ascii ''Unexpected token''))"
    by simp
  with 2 show ?thesis by blast
qed


section \<open>The File Ingestor\<close>

text \<open>
  C4, as stated, fails: \<open>report.CSV\<close> is tabular when the browser declares the CSV
  content type and opaque when it declares none, so the classification does not depend
  on the extension alone and the upper-case extension is not tabular by itself.
\<close>

theorem C4_counterexample:
  "isSpreadsheet \<lparr>name = ascii ''report.CSV'', type = ascii ''text/csv''\<rparr> \<and>
   \<not> isSpreadsheet \<lparr>name = ascii ''report.CSV'', type = []\<rparr>"
  by (simp add: isSpreadsheet_def endsWith_def ascii_def)

text \<open>
  C4 (amended). A file is tabular iff its name ends, case-sensitively, in \<open>.xlsx\<close>,
  \<open>.xls\<close> or \<open>.csv\<close>, or its declared content type contains \<open>spreadsheet\<close> or
  \<open>excel\<close> or equals \<open>text/csv\<close>; otherwise it is opaque. The classification is a
  function of the name and the declared content type: every name ending in \<open>.csv\<close> is
  tabular whatever the type, \<open>report.CSV\<close> is tabular when its declared type is
  \<open>text/csv\<close>, and \<open>statement.pdf\<close> with the type \<open>application/pdf\<close> is opaque.
\<close>

theorem C4_classification:
  "(isSpreadsheet f \<longleftrightarrow>
      suffix (ascii ''.xlsx'') (name f) \<or> suffix (ascii ''.xls'') (name f) \<or>
      suffix (ascii ''.csv'') (name f) \<or>
      sublist (ascii ''spreadsheet'') (type f) \<or> sublist (ascii ''excel'') (type f) \<or>
      type f = ascii ''text/csv'') \<and>
   isSpreadsheet \<lparr>name = stem @ ascii ''.csv'', type = t\<rparr> \<and>
   isSpreadsheet \<lparr>name = ascii ''report.CSV'', type = ascii ''text/csv''\<rparr> \<and>
   \<not> isSpreadsheet \<lparr>name = ascii ''statement.pdf'', type = ascii ''application/pdf''\<rparr>"
proof -
  have 1: "isSpreadsheet f \<longleftrightarrow>
      suffix (ascii ''.xlsx'') (name f) \<or> suffix (ascii ''.xls'') (name f) \<or>
      suffix (ascii ''.csv'') (name f) \<or>
      sublist (ascii ''spreadsheet'') (type f) \<or> sublist (ascii ''excel'') (type f) \<or>
      type f = ascii ''text/csv''" for f
    by (simp add: isSpreadsheet_def endsWith_suffix includes_str_sublist)
  have 2: "isSpreadsheet \<lparr>name = stem @ ascii ''.csv'', type = t\<rparr>"
    by (simp add: 1 suffix_def)
  have 3: "isSpreadsheet \<lparr>name = ascii ''report.CSV'', type = ascii ''text/csv''\<rparr>"
    by (simp add: isSpreadsheet_def)
  have 4: "\<not> isSpreadsheet \<lparr>name = ascii ''statement.pdf'', type = ascii ''application/pdf''\<rparr>"
    by (simp add: isSpreadsheet_def endsWith_def ascii_def)
  show ?thesis using 1 2 3 4 by blast
qed

theorem C4_witness:
  "isSpreadsheet \<lparr>name = ascii ''budget.xls'', type = []\<rparr> \<and>
   isSpreadsheet \<lparr>name = ascii ''q1.csv'', type = ascii ''application/pdf''\<rparr>"
proof -
  have "suffix (ascii ''.xls'') (ascii ''budget.xls'')"
    by (simp add: suffix_def ascii_def)
  then show ?thesis
    using C4_classification [of "\<lparr>name = ascii ''budget.xls'', type = []\<rparr>" "ascii ''q1''"
        "ascii ''application/pdf''"]
    by (simp add: ascii_def)
qed


section \<open>The Dashboard\<close>




text \<open>An entry without a department passes no filter but \<open>All\<close>.\<close>

lemma filteredChanges_absent_department:
  assumes "relatedDepartment it = None" "selectedDept \<noteq> ascii ''All''"
  shows "it \<notin> set (filteredChanges d selectedDept)"
  using assms by (auto simp: filteredChanges_def split: option.splits)

text \<open>
  C9. Parsing keeps the absence of relatedDepartment: the parsed entry has no such
  property. The filter does not treat the entry as General: with two entries, the first
  without a department and the second of department General, the selection General is
  offered and keeps the second entry only, while the table cell of the first entry
  shows General.
\<close>

theorem C9_filter_drops_absent_department:
  "filteredChanges
     (example_result [example_change None, example_change (Some (ascii ''General''))] [])
     (ascii ''General'') = [example_change (Some (ascii ''General''))] \<and>
   department_cell (example_change None) = ascii ''General'' \<and>
   availableDepartments
     (example_result [example_change None, example_change (Some (ascii ''General''))] [])
     = [ascii ''All'', ascii ''General''] \<and>
   map_option (\<lambda>v. get_prop v (ascii ''relatedDepartment'')) (JSON_parse absent_department_text)
     = Some None"
  by (simp add: parse_absent_department)
     (simp add: filteredChanges_def department_cell_def availableDepartments_def
        example_result_def example_change_def ascii_def)

end
